theory Spec2Isabelle
  imports Complex_Main
begin

section \<open>The long-period generator \<open>ran2\<close> of \<open>src/prob/hgb.c\<close>\<close>

text \<open>
  The C type \<open>long int\<close> is modelled by \<open>int\<close>: the arithmetic of the model never
  overflows, and the theorems below say where the values of the code stay inside the range
  that ISO C guarantees for \<open>long int\<close>. The C type \<open>double\<close> is modelled by
  \<open>real\<close>: rounding is not part of the model. An access to the table \<open>iv\<close> outside
  its 32 entries is an error value of the model.
\<close>

subsection \<open>C arithmetic\<close>

text \<open>The C operator \<open>/\<close> on integers truncates towards zero.\<close>

definition c_div :: "int \<Rightarrow> int \<Rightarrow> int" where
  "c_div a b = sgn a * sgn b * (\<bar>a\<bar> div \<bar>b\<bar>)"

text \<open>
  The cast \<open>(int)\<close> of a \<open>long int\<close>: the value itself when it fits the 32 bits of
  an \<open>int\<close>, reduced modulo \<open>2 ^ 32\<close> into the range of \<open>int\<close> otherwise.
\<close>

definition int_cast :: "int \<Rightarrow> int" where
  "int_cast x = (x + 2147483648) mod 4294967296 - 2147483648"

text \<open>The range that ISO C guarantees for every \<open>long int\<close>.\<close>

definition fits_long :: "int \<Rightarrow> bool" where
  "fits_long x \<longleftrightarrow> - 2147483647 \<le> x \<and> x \<le> 2147483647"

subsection \<open>The macros\<close>

definition IM1 :: int where "IM1 = 2147483563"
definition IM2 :: int where "IM2 = 2147483399"
definition AM :: real where "AM = 1.0 / real_of_int IM1"
definition IMM1 :: int where "IMM1 = IM1 - 1"
definition IA1 :: int where "IA1 = 40014"
definition IA2 :: int where "IA2 = 40692"
definition IQ1 :: int where "IQ1 = 53668"
definition IQ2 :: int where "IQ2 = 52774"
definition IR1 :: int where "IR1 = 12211"
definition IR2 :: int where "IR2 = 3791"
definition NTAB :: int where "NTAB = 32"
definition NDIV :: int where "NDIV = 1 + c_div IMM1 NTAB"

text \<open>
  Modelled from the spec: \<open>DBL_EPSILON\<close> comes from \<open><float.h>\<close>, which is not part of
  the sources; it is the machine epsilon of the spec, \<open>2 ^ -52\<close> for an IEEE double.
\<close>

definition DBL_EPSILON :: real where "DBL_EPSILON = 1 / 2 ^ 52"
definition RNMX :: real where "RNMX = 1.0 - DBL_EPSILON"

subsection \<open>The two recurrences\<close>

text \<open>
  \<open>k=(*idum)/IQ1; *idum=IA1*(*idum-k*IQ1)-k*IR1; if (*idum < 0) *idum += IM1;\<close>
  These three statements occur in the loop that loads the table and again in the steady-state
  part of \<open>ran2\<close>.
\<close>

definition advance_idum :: "int \<Rightarrow> int" where
  "advance_idum idum =
     (let k = c_div idum IQ1;
          idum = IA1 * (idum - k * IQ1) - k * IR1
      in if idum < 0 then idum + IM1 else idum)"

text \<open>
  \<open>k=idum2/IQ2; idum2=IA2*(idum2-k*IQ2)-k*IR2; if (idum2 < 0) idum2 += IM2;\<close>
\<close>

definition advance_idum2 :: "int \<Rightarrow> int" where
  "advance_idum2 idum2 =
     (let k = c_div idum2 IQ2;
          idum2 = IA2 * (idum2 - k * IQ2) - k * IR2
      in if idum2 < 0 then idum2 + IM2 else idum2)"

text \<open>
  Every value that the three statements compute, subexpressions included, in the order of
  evaluation; the last entry is there only when the addition of the modulus is executed.
\<close>

definition advance_idum_values :: "int \<Rightarrow> int list" where
  "advance_idum_values idum =
     (let k = c_div idum IQ1;
          t = IA1 * (idum - k * IQ1) - k * IR1
      in [k, k * IQ1, idum - k * IQ1, IA1 * (idum - k * IQ1), k * IR1, t]
         @ (if t < 0 then [t + IM1] else []))"

definition advance_idum2_values :: "int \<Rightarrow> int list" where
  "advance_idum2_values idum2 =
     (let k = c_div idum2 IQ2;
          t = IA2 * (idum2 - k * IQ2) - k * IR2
      in [k, k * IQ2, idum2 - k * IQ2, IA2 * (idum2 - k * IQ2), k * IR2, t]
         @ (if t < 0 then [t + IM2] else []))"

subsection \<open>Loading the shuffle table\<close>

text \<open>
  The loop \<open>for (j=NTAB+7;j>=0;j--)\<close> with its body: one step of the primary recurrence,
  stored in \<open>iv[j]\<close> when \<open>j < NTAB\<close>.
\<close>

function load_table :: "int \<Rightarrow> int \<Rightarrow> int list \<Rightarrow> int \<times> int list" where
  "load_table j idum iv =
     (if j \<ge> 0 then
        (let idum = advance_idum idum;
             iv = (if j < NTAB then iv[nat j := idum] else iv)
         in load_table (j - 1) idum iv)
      else (idum, iv))"
  by pat_completeness auto
termination
  by (relation "measure (\<lambda>(j, idum, iv). nat (j + 1))") auto

declare load_table.simps [simp del]

subsection \<open>The value returned\<close>

text \<open>The last statements: scaling by \<open>AM\<close> and the comparison with \<open>RNMX\<close>.\<close>

definition ran2_return :: "int \<Rightarrow> real" where
  "ran2_return iy = (let temp = AM * real_of_int iy in if temp > RNMX then RNMX else temp)"

subsection \<open>The generator state\<close>

text \<open>
  \<open>idum\<close> is the caller's variable behind the pointer argument; \<open>idum2\<close>, \<open>iy\<close> and
  \<open>iv\<close> are the static variables of \<open>ran2\<close>.
\<close>

record gen_state =
  idum :: int
  idum2 :: int
  iy :: int
  iv :: "int list"

datatype error = IndexOutOfBounds

text \<open>
  The static variables as the program starts: \<open>idum2=123456789\<close>, \<open>iy=0\<close>, and the table
  zero, as C initialises static storage; \<open>idum\<close> is the seed that the caller chose.
\<close>

definition fresh :: "int \<Rightarrow> gen_state" where
  "fresh seed = \<lparr>idum = seed, idum2 = 123456789, iy = 0, iv = replicate 32 0\<rparr>"

subsection \<open>\<open>ran2\<close>\<close>

text \<open>The block under \<open>if (*idum <= 0)\<close>.\<close>

definition ran2_initialize :: "gen_state \<Rightarrow> gen_state" where
  "ran2_initialize s =
     (let idum0 = (if - idum s < 1 then 1 else - idum s);
          (idum1, iv1) = load_table (NTAB + 7) idum0 (iv s)
      in \<lparr>idum = idum1, idum2 = idum0, iy = iv1 ! 0, iv = iv1\<rparr>)"

text \<open>The statements from \<open>Start here when not initializing\<close> to the end.\<close>

definition ran2_steady :: "gen_state \<Rightarrow> error + (real \<times> gen_state)" where
  "ran2_steady s =
     (let idum = advance_idum (idum s);
          idum2 = advance_idum2 (idum2 s);
          j = int_cast (c_div (iy s) NDIV)
      in if j < 0 \<or> j \<ge> NTAB then Inl IndexOutOfBounds
         else
           (let iy = iv s ! nat j - idum2;
                iv = (iv s)[nat j := idum];
                iy = (if iy < 1 then iy + IMM1 else iy)
            in Inr (ran2_return iy, \<lparr>idum = idum, idum2 = idum2, iy = iy, iv = iv\<rparr>)))"

definition ran2 :: "gen_state \<Rightarrow> error + (real \<times> gen_state)" where
  "ran2 s = ran2_steady (if idum s \<le> 0 then ran2_initialize s else s)"

text \<open>
  \<open>n\<close> successive calls, the state of each call being the state that the call before left:
  the values returned, in order, and the final state; the first error ends the run.
\<close>

fun ran2_calls :: "nat \<Rightarrow> gen_state \<Rightarrow> error + (real list \<times> gen_state)" where
  "ran2_calls 0 s = Inr ([], s)"
| "ran2_calls (Suc n) s =
     (case ran2 s of
        Inl e \<Rightarrow> Inl e
      | Inr (v, s') \<Rightarrow>
          (case ran2_calls n s' of
             Inl e \<Rightarrow> Inl e
           | Inr (vs, s'') \<Rightarrow> Inr (v # vs, s'')))"

text \<open>The values that \<open>n\<close> successive calls return, without the final state.\<close>

definition ran2_outputs :: "nat \<Rightarrow> gen_state \<Rightarrow> error + real list" where
  "ran2_outputs n s = (case ran2_calls n s of Inl e \<Rightarrow> Inl e | Inr (vs, s') \<Rightarrow> Inr vs)"

subsection \<open>Ranges of the state\<close>

text \<open>
  The ranges that the proofs below carry from call to call: the table has its 32 entries,
  every entry, the selector \<open>iy\<close> and the secondary state are non-negative and below
  their modulus, and the caller's \<open>idum\<close> has a magnitude of at most \<open>2 ^ 31 - 1\<close>.
\<close>

definition state_in_range :: "gen_state \<Rightarrow> bool" where
  "state_in_range s \<longleftrightarrow>
     length (iv s) = 32 \<and> list_all (\<lambda>x. 0 \<le> x \<and> x \<le> IMM1) (iv s) \<and>
     0 \<le> iy s \<and> iy s \<le> IMM1 \<and>
     0 \<le> idum2 s \<and> idum2 s \<le> 2147483647 \<and>
     - 2147483647 \<le> idum s \<and> idum s \<le> 2147483647"

text \<open>
  The narrower ranges of the recurrences themselves: the primary state, the selector and
  every entry of the table from 1 to \<open>IM1 - 1\<close>, the secondary state from 1 to
  \<open>IM2 - 1\<close>.
\<close>

definition state_strictly_in_range :: "gen_state \<Rightarrow> bool" where
  "state_strictly_in_range s \<longleftrightarrow>
     length (iv s) = 32 \<and> list_all (\<lambda>x. 1 \<le> x \<and> x \<le> IMM1) (iv s) \<and>
     1 \<le> iy s \<and> iy s \<le> IMM1 \<and>
     1 \<le> idum2 s \<and> idum2 s \<le> IM2 - 1 \<and>
     1 \<le> idum s \<and> idum s \<le> IMM1"

section \<open>The checks of \<open>problem\<close>\<close>

text \<open>
  Modelled from the spec: \<open>ath_error\<close> belongs to the host framework and is not part of the
  sources; by the spec, every failure of the plugin is a process-terminating diagnostic with
  no recovery. The calls of \<open>ath_error\<close> in \<open>problem\<close>, and the failure of \<open>par_getd\<close>
  on a missing key, are the values of this type.
\<close>

datatype fatal =
    HGB_only_works_on_a_2D_or_3D_grid
  | Missing_parameter string string
  | Error_opening string
  | Requires_xmin
  | Requires_xmax

text \<open>
  What \<open>problem\<close> reads: the two grid sizes of \<open>pGrid\<close>, the parameters of the input
  file by block and name, and the data files by name (\<open>None\<close> when \<open>fopen\<close> returns
  \<open>NULL\<close>), each a list of rows of four numbers.
\<close>

record host =
  Nx1 :: int
  Nx2 :: int
  doubles :: "string \<Rightarrow> string \<Rightarrow> real option"
  ints :: "string \<Rightarrow> string \<Rightarrow> int option"
  files :: "string \<Rightarrow> (real \<times> real \<times> real \<times> real) list option"

text \<open>
  Modelled from the spec: the configuration accessors \<open>par_getd\<close>, \<open>par_getd_def\<close> and
  \<open>par_geti_def\<close> belong to the host framework and are not part of the sources; by the
  spec they return named parameters with optional defaults, and a missing required key is
  fatal.
\<close>

definition par_getd :: "host \<Rightarrow> string \<Rightarrow> string \<Rightarrow> fatal + real" where
  "par_getd h block name =
     (case doubles h block name of
        None \<Rightarrow> Inl (Missing_parameter block name)
      | Some v \<Rightarrow> Inr v)"

definition par_getd_def :: "host \<Rightarrow> string \<Rightarrow> string \<Rightarrow> real \<Rightarrow> real" where
  "par_getd_def h block name d = (case doubles h block name of None \<Rightarrow> d | Some v \<Rightarrow> v)"

definition par_geti_def :: "host \<Rightarrow> string \<Rightarrow> string \<Rightarrow> int \<Rightarrow> int" where
  "par_geti_def h block name d = (case ints h block name of None \<Rightarrow> d | Some v \<Rightarrow> v)"

text \<open>Sequencing: a fatal error ends the run, and what follows is not executed.\<close>

definition and_then :: "fatal + 'a \<Rightarrow> ('a \<Rightarrow> fatal + 'b) \<Rightarrow> fatal + 'b" where
  "and_then r f = (case r of Inl e \<Rightarrow> Inl e | Inr v \<Rightarrow> f v)"

text \<open>
  \<open>if((fp = fopen(name,"r")) == NULL) ath_error("Error opening ...")\<close>, then the loop of
  \<open>fscanf\<close> over \<open>n\<close> rows.
\<close>

definition read_FPwave ::
  "host \<Rightarrow> string \<Rightarrow> nat \<Rightarrow> fatal + (real \<times> real \<times> real \<times> real) list" where
  "read_FPwave h name n =
     (case files h name of
        None \<Rightarrow> Inl (Error_opening name)
      | Some rows \<Rightarrow> Inr (take n rows))"

text \<open>The block under \<open>if (ipert == 4)\<close> that precedes the loops over the cells.\<close>

definition FPwave_input :: "host \<Rightarrow> fatal + (real \<times> real \<times> real \<times> real) list" where
  "FPwave_input h =
     and_then (if Nx1 h = 160 then read_FPwave h ''Data-160-FPwave.dat'' 160 else Inr [])
       (\<lambda>FP160.
     and_then (if Nx1 h = 40 then read_FPwave h ''Data-40-FPwave.dat'' 40 else Inr FP160)
       (\<lambda>FP.
     and_then (par_getd h ''grid'' ''x1min'')
       (\<lambda>xmin. if xmin \<noteq> - 4.7965 then Inl Requires_xmin else
     and_then (par_getd h ''grid'' ''x1max'')
       (\<lambda>xmax. if xmax \<noteq> 4.7965 then Inl Requires_xmax else Inr FP))))"

text \<open>The values that the loops over the cells use.\<close>

record settings =
  Omega :: real
  amp :: real
  beta :: real
  ifield :: int
  ipert :: int
  Lx :: real
  Ly :: real
  Lz :: real
  nwx :: int
  nwy :: int
  nwz :: int
  FP :: "(real \<times> real \<times> real \<times> real) list"

text \<open>
  The statements of \<open>problem\<close> from its first line to the loops over the cells, in the order
  of the source.
\<close>

definition problem_setup :: "host \<Rightarrow> fatal + settings" where
  "problem_setup h =
     (if Nx2 h = 1 then Inl HGB_only_works_on_a_2D_or_3D_grid
      else
        and_then (par_getd h ''problem'' ''amp'') (\<lambda>amp.
        and_then (par_getd h ''problem'' ''beta'') (\<lambda>beta.
        and_then (par_getd h ''grid'' ''x1min'') (\<lambda>x1min.
        and_then (par_getd h ''grid'' ''x1max'') (\<lambda>x1max.
        and_then (par_getd h ''grid'' ''x2min'') (\<lambda>x2min.
        and_then (par_getd h ''grid'' ''x2max'') (\<lambda>x2max.
        and_then (par_getd h ''grid'' ''x3min'') (\<lambda>x3min.
        and_then (par_getd h ''grid'' ''x3max'') (\<lambda>x3max.
        and_then
          (if par_geti_def h ''problem'' ''ipert'' 1 = 4 then FPwave_input h else Inr [])
          (\<lambda>FP.
             Inr \<lparr>Omega = par_getd_def h ''problem'' ''omega'' (1 / 1000),
                  amp = amp, beta = beta,
                  ifield = par_geti_def h ''problem'' ''ifield'' 1,
                  ipert = par_geti_def h ''problem'' ''ipert'' 1,
                  Lx = x1max - x1min, Ly = x2max - x2min, Lz = x3max - x3min,
                  nwx = par_geti_def h ''problem'' ''nwx'' 1,
                  nwy = par_geti_def h ''problem'' ''nwy'' 1,
                  nwz = par_geti_def h ''problem'' ''nwz'' 1,
                  FP = FP\<rparr>))))))))))"

text \<open>
  How a run of \<open>problem\<close> ends, with the field arrays of the grid as they are at that
  moment: terminated by a fatal error, or returned.
\<close>

datatype 'g outcome = Terminated fatal 'g | Returned 'g

text \<open>
  \<open>problem\<close>: the checks, then the loops over the cells, which assign the field values.
  The loops are the parameter \<open>init_fields\<close>; every check of the source precedes them.
\<close>

definition problem :: "host \<Rightarrow> (settings \<Rightarrow> 'g \<Rightarrow> 'g) \<Rightarrow> 'g \<Rightarrow> 'g outcome" where
  "problem h init_fields U =
     (case problem_setup h of
        Inl e \<Rightarrow> Terminated e U
      | Inr st \<Rightarrow> Returned (init_fields st U))"

section \<open>Arithmetic of the recurrences\<close>

lemma c_div_nonneg: "0 \<le> a \<Longrightarrow> 0 < b \<Longrightarrow> c_div a b = a div b"
  by (cases "a = 0") (simp_all add: c_div_def)

lemma advance_idum_unfold:
  assumes "0 \<le> x"
  shows "advance_idum x =
    (if 40014 * (x mod 53668) - (x div 53668) * 12211 < 0
     then 40014 * (x mod 53668) - (x div 53668) * 12211 + 2147483563
     else 40014 * (x mod 53668) - (x div 53668) * 12211)"
proof -
  have "x - x div 53668 * 53668 = x mod 53668"
    by (simp add: minus_div_mult_eq_mod)
  then show ?thesis
    using assms
    by (simp add: advance_idum_def c_div_nonneg IQ1_def IA1_def IR1_def IM1_def Let_def)
qed

lemma advance_idum2_unfold:
  assumes "0 \<le> x"
  shows "advance_idum2 x =
    (if 40692 * (x mod 52774) - (x div 52774) * 3791 < 0
     then 40692 * (x mod 52774) - (x div 52774) * 3791 + 2147483399
     else 40692 * (x mod 52774) - (x div 52774) * 3791)"
proof -
  have "x - x div 52774 * 52774 = x mod 52774"
    by (simp add: minus_div_mult_eq_mod)
  then show ?thesis
    using assms
    by (simp add: advance_idum2_def c_div_nonneg IQ2_def IA2_def IR2_def IM2_def Let_def)
qed

lemma schrage_mod:
  fixes x a q r m :: int
  assumes m: "m = a * q + r" and q: "0 < q"
    and lo: "- m < a * (x mod q) - (x div q) * r"
    and hi: "a * (x mod q) - (x div q) * r < m"
  shows "(if a * (x mod q) - (x div q) * r < 0
          then a * (x mod q) - (x div q) * r + m
          else a * (x mod q) - (x div q) * r) = (a * x) mod m"
proof -
  define t where "t = a * (x mod q) - (x div q) * r"
  have "a * x = a * (q * (x div q) + x mod q)"
    by (simp only: mult_div_mod_eq)
  also have "\<dots> = (x div q) * m + t"
    unfolding t_def m by (simp only: algebra_simps)
  finally have ax: "a * x = (x div q) * m + t" .
  have "(a * x) mod m = t mod m"
    by (simp add: ax)
  moreover have "t mod m = (if t < 0 then t + m else t)"
  proof (cases "t < 0")
    case True
    then have "0 \<le> t + m" "t + m < m"
      using lo by (simp_all add: t_def)
    then have "(t + m) mod m = t + m"
      by (rule mod_pos_pos_trivial)
    then have "t mod m = t + m"
      by (simp only: mod_add_self2)
    with True show ?thesis
      by (simp only: if_True)
  next
    case False
    then show ?thesis
      using hi by (simp add: t_def)
  qed
  ultimately show ?thesis
    by (simp add: t_def)
qed

lemma advance_idum_mod:
  assumes "0 \<le> x" and "x \<le> 2147483647"
  shows "advance_idum x = (40014 * x) mod 2147483563"
proof -
  have k: "0 \<le> x div 53668" "x div 53668 \<le> 40014"
    using assms zdiv_mono1 [of x 2147483647 53668] by simp_all
  have r: "0 \<le> x mod 53668" "x mod 53668 < 53668"
    by simp_all
  have "- 2147483563 < 40014 * (x mod 53668) - (x div 53668) * 12211"
    using k r by linarith
  moreover have "40014 * (x mod 53668) - (x div 53668) * 12211 < 2147483563"
    using k r by linarith
  ultimately show ?thesis
    using schrage_mod [of 2147483563 40014 53668 12211 x] assms
    by (simp add: advance_idum_unfold)
qed

lemma advance_idum2_mod:
  assumes "0 \<le> x" and "x \<le> 2147483647"
  shows "advance_idum2 x = (40692 * x) mod 2147483399"
proof -
  have k: "0 \<le> x div 52774" "x div 52774 \<le> 40692"
    using assms zdiv_mono1 [of x 2147483647 52774] by simp_all
  have r: "0 \<le> x mod 52774" "x mod 52774 < 52774"
    by simp_all
  have "- 2147483399 < 40692 * (x mod 52774) - (x div 52774) * 3791"
    using k r by linarith
  moreover have "40692 * (x mod 52774) - (x div 52774) * 3791 < 2147483399"
    using k r by linarith
  ultimately show ?thesis
    using schrage_mod [of 2147483399 40692 52774 3791 x] assms
    by (simp add: advance_idum2_unfold)
qed

lemma advance_idum_values_fit:
  assumes "0 \<le> x" and "x \<le> 2147483647"
  shows "\<forall>v \<in> set (advance_idum_values x). fits_long v"
proof -
  define k where "k = x div 53668"
  define r where "r = x mod 53668"
  have k: "0 \<le> k" "k \<le> 40014"
    using assms zdiv_mono1 [of x 2147483647 53668] by (simp_all add: k_def)
  have r: "0 \<le> r" "r < 53668"
    by (simp_all add: r_def)
  have kq: "k * 53668 = x - r"
    using mult_div_mod_eq [of 53668 x] unfolding k_def r_def by linarith
  have "advance_idum_values x =
      [k, x - r, r, 40014 * r, k * 12211, 40014 * r - k * 12211]
      @ (if 40014 * r - k * 12211 < 0 then [40014 * r - k * 12211 + 2147483563] else [])"
    using assms(1) kq
    by (simp add: advance_idum_values_def c_div_nonneg IQ1_def IA1_def IR1_def IM1_def
        Let_def flip: k_def)
  then show ?thesis
    using assms k r by (auto simp add: fits_long_def)
qed

lemma advance_idum2_values_fit:
  assumes "0 \<le> x" and "x \<le> 2147483647"
  shows "\<forall>v \<in> set (advance_idum2_values x). fits_long v"
proof -
  define k where "k = x div 52774"
  define r where "r = x mod 52774"
  have k: "0 \<le> k" "k \<le> 40692"
    using assms zdiv_mono1 [of x 2147483647 52774] by (simp_all add: k_def)
  have r: "0 \<le> r" "r < 52774"
    by (simp_all add: r_def)
  have kq: "k * 52774 = x - r"
    using mult_div_mod_eq [of 52774 x] unfolding k_def r_def by linarith
  have "advance_idum2_values x =
      [k, x - r, r, 40692 * r, k * 3791, 40692 * r - k * 3791]
      @ (if 40692 * r - k * 3791 < 0 then [40692 * r - k * 3791 + 2147483399] else [])"
    using assms(1) kq
    by (simp add: advance_idum2_values_def c_div_nonneg IQ2_def IA2_def IR2_def IM2_def
        Let_def flip: k_def)
  then show ?thesis
    using assms k r by (auto simp add: fits_long_def)
qed

lemma last_advance_idum_values: "last (advance_idum_values x) = advance_idum x"
  by (simp add: advance_idum_values_def advance_idum_def Let_def)

lemma last_advance_idum2_values: "last (advance_idum2_values x) = advance_idum2 x"
  by (simp add: advance_idum2_values_def advance_idum2_def Let_def)

section \<open>The table after the initialization\<close>

lemma load_table_nat:
  assumes "length tab = 32"
  shows "load_table (int n - 1) x tab =
    ((advance_idum ^^ n) x,
     map (\<lambda>i. if i < n then (advance_idum ^^ (n - i)) x else tab ! i) [0..<32])"
  using assms
proof (induction n arbitrary: x tab)
  case 0
  have "map (\<lambda>i. tab ! i) [0..<32] = tab"
    using 0 map_nth [of tab] by simp
  then show ?case
    by (subst load_table.simps) simp
next
  case (Suc n)
  define x1 where "x1 = advance_idum x"
  define tab1 where "tab1 = (if int n < NTAB then tab[n := x1] else tab)"
  have len: "length tab1 = 32"
    using Suc.prems by (simp add: tab1_def)
  have step: "load_table (int (Suc n) - 1) x tab = load_table (int n - 1) x1 tab1"
    by (subst load_table.simps) (simp add: x1_def tab1_def Let_def)
  have pow: "(advance_idum ^^ k) x1 = (advance_idum ^^ Suc k) x" for k
    by (simp add: x1_def funpow_swap1)
  have "map (\<lambda>i. if i < n then (advance_idum ^^ (n - i)) x1 else tab1 ! i) [0..<32] =
        map (\<lambda>i. if i < Suc n then (advance_idum ^^ (Suc n - i)) x else tab ! i) [0..<32]"
  proof (rule map_cong [OF refl])
    fix i assume "i \<in> set [0..<32]"
    then have i: "i < 32" by simp
    show "(if i < n then (advance_idum ^^ (n - i)) x1 else tab1 ! i) =
          (if i < Suc n then (advance_idum ^^ (Suc n - i)) x else tab ! i)"
    proof (cases "i < n")
      case True
      then show ?thesis
        by (simp add: pow Suc_diff_le)
    next
      case False
      show ?thesis
      proof (cases "i = n")
        case True
        then show ?thesis
          using i Suc.prems by (simp add: tab1_def NTAB_def x1_def)
      next
        case ne: False
        then show ?thesis
          using False by (simp add: tab1_def)
      qed
    qed
  qed
  then show ?case
    using Suc.IH [OF len, of x1] step pow [of n] by simp
qed

lemma ran2_initialize_eq:
  assumes "length (iv s) = 32"
  shows "ran2_initialize s =
    (let m = (if - idum s < 1 then 1 else - idum s)
     in \<lparr>idum = (advance_idum ^^ 40) m, idum2 = m, iy = (advance_idum ^^ 40) m,
         iv = map (\<lambda>j. (advance_idum ^^ (40 - j)) m) [0..<32]\<rparr>)"
proof -
  have lt: "load_table (NTAB + 7) m (iv s) =
      ((advance_idum ^^ 40) m, map (\<lambda>j. (advance_idum ^^ (40 - j)) m) [0..<32])" for m
  proof -
    have "load_table (NTAB + 7) m (iv s) = load_table (int 40 - 1) m (iv s)"
      by (simp add: NTAB_def)
    also have "\<dots> = ((advance_idum ^^ 40) m,
        map (\<lambda>i. if i < 40 then (advance_idum ^^ (40 - i)) m else iv s ! i) [0..<32])"
      using assms by (rule load_table_nat)
    also have "map (\<lambda>i. if i < 40 then (advance_idum ^^ (40 - i)) m else iv s ! i) [0..<32] =
        map (\<lambda>j. (advance_idum ^^ (40 - j)) m) [0..<32]"
      by (rule map_cong [OF refl]) simp
    finally show ?thesis .
  qed
  have hd: "map (\<lambda>j. (advance_idum ^^ (40 - j)) m) [0..<32] ! 0 = (advance_idum ^^ 40) m" for m
    by (subst nth_map) simp_all
  show ?thesis
    by (simp add: ran2_initialize_def Let_def lt hd)
qed

lemma ran2_seed_only:
  assumes "length (iv s1) = 32" and "length (iv s2) = 32"
    and "idum s1 = idum s2" and "idum s1 \<le> 0"
  shows "ran2 s1 = ran2 s2"
  using assms by (simp add: ran2_def ran2_initialize_eq)

lemma ran2_outputs_Suc:
  "ran2_outputs (Suc n) s =
     (case ran2 s of
        Inl e \<Rightarrow> Inl e
      | Inr (v, s') \<Rightarrow> (case ran2_outputs n s' of Inl e \<Rightarrow> Inl e | Inr vs \<Rightarrow> Inr (v # vs)))"
  by (simp add: ran2_outputs_def split: sum.splits prod.splits)

lemma ran2_outputs_cong:
  assumes "ran2 s1 = ran2 s2"
  shows "ran2_outputs n s1 = ran2_outputs n s2"
proof (cases n)
  case 0
  then show ?thesis by (simp add: ran2_outputs_def)
next
  case (Suc k)
  then show ?thesis by (simp add: ran2_outputs_Suc assms)
qed

section \<open>Ranges kept by the calls\<close>

lemma advance_idum_range:
  assumes "0 \<le> x" and "x \<le> 2147483647"
  shows "0 \<le> advance_idum x \<and> advance_idum x \<le> 2147483562"
proof -
  have "0 \<le> (40014 * x) mod 2147483563" "(40014 * x) mod 2147483563 < 2147483563"
    by simp_all
  then show ?thesis
    using advance_idum_mod [OF assms] by simp
qed

lemma advance_idum2_range:
  assumes "0 \<le> x" and "x \<le> 2147483647"
  shows "0 \<le> advance_idum2 x \<and> advance_idum2 x \<le> 2147483398"
proof -
  have "0 \<le> (40692 * x) mod 2147483399" "(40692 * x) mod 2147483399 < 2147483399"
    by simp_all
  then show ?thesis
    using advance_idum2_mod [OF assms] by simp
qed

lemma funpow_advance_idum_range:
  assumes "0 \<le> x" and "x \<le> 2147483647"
  shows "0 \<le> (advance_idum ^^ Suc k) x \<and> (advance_idum ^^ Suc k) x \<le> 2147483562"
proof (induction k)
  case 0
  then show ?case
    using advance_idum_range [OF assms] by simp
next
  case (Suc k)
  then have "0 \<le> (advance_idum ^^ Suc k) x" "(advance_idum ^^ Suc k) x \<le> 2147483647"
    by simp_all
  then have "0 \<le> advance_idum ((advance_idum ^^ Suc k) x) \<and>
             advance_idum ((advance_idum ^^ Suc k) x) \<le> 2147483562"
    by (rule advance_idum_range)
  then show ?case
    by simp
qed

lemma ran2_initialize_in_range:
  assumes len: "length (iv s) = 32" and lo: "- 2147483647 \<le> idum s" and hi: "idum s \<le> 0"
  shows "state_in_range (ran2_initialize s) \<and> 0 \<le> idum (ran2_initialize s)"
proof -
  define m where "m = (if - idum s < 1 then 1 else - idum s)"
  have m: "0 \<le> m" "m \<le> 2147483647"
    using lo hi by (simp_all add: m_def)
  have pw: "0 \<le> (advance_idum ^^ k) m \<and> (advance_idum ^^ k) m \<le> 2147483562" if "0 < k" for k
  proof -
    from that obtain k' where "k = Suc k'"
      by (cases k) simp_all
    then show ?thesis
      using funpow_advance_idum_range [OF m, of k'] by simp
  qed
  have tab: "list_all (\<lambda>x. 0 \<le> x \<and> x \<le> 2147483562)
      (map (\<lambda>j. (advance_idum ^^ (40 - j)) m) [0..<32])"
    unfolding list_all_iff
  proof
    fix x assume "x \<in> set (map (\<lambda>j. (advance_idum ^^ (40 - j)) m) [0..<32])"
    then obtain j where "j < 32" and x: "x = (advance_idum ^^ (40 - j)) m"
      by auto
    then have "0 < 40 - j" by simp
    then show "0 \<le> x \<and> x \<le> 2147483562"
      unfolding x by (rule pw)
  qed
  have e: "ran2_initialize s =
      \<lparr>idum = (advance_idum ^^ 40) m, idum2 = m, iy = (advance_idum ^^ 40) m,
       iv = map (\<lambda>j. (advance_idum ^^ (40 - j)) m) [0..<32]\<rparr>"
    using ran2_initialize_eq [OF len] by (simp add: m_def Let_def)
  show ?thesis
    unfolding e using tab pw [of 40] m
    by (simp add: state_in_range_def IMM1_def IM1_def)
qed

lemma int_cast_small: "- 2147483648 \<le> x \<Longrightarrow> x < 2147483648 \<Longrightarrow> int_cast x = x"
  by (simp add: int_cast_def)

lemma ran2_return_range:
  assumes "1 \<le> y" and "y \<le> 2147483562"
  shows "0 < ran2_return y \<and> ran2_return y < 1"
proof -
  have "0 < real_of_int y" "real_of_int y < 2147483563"
    using assms by simp_all
  then have "0 < AM * real_of_int y" "AM * real_of_int y < 1"
    by (simp_all add: AM_def IM1_def)
  moreover have "0 < RNMX" "RNMX < 1"
    by (simp_all add: RNMX_def DBL_EPSILON_def)
  ultimately show ?thesis
    by (simp add: ran2_return_def Let_def)
qed

lemma NDIV_value: "NDIV = 67108862"
  by (simp add: NDIV_def IMM1_def IM1_def NTAB_def c_div_def)

lemma table_index_range:
  assumes "0 \<le> y" and "y \<le> 2147483562"
  shows "int_cast (c_div y NDIV) = y div 67108862 \<and> 0 \<le> y div 67108862 \<and> y div 67108862 \<le> 31"
proof -
  have q: "0 \<le> y div 67108862" "y div 67108862 \<le> 31"
    using assms zdiv_mono1 [of y 2147483562 67108862] by simp_all
  have "c_div y NDIV = y div 67108862"
    using assms by (simp add: NDIV_value c_div_nonneg)
  moreover have "int_cast (y div 67108862) = y div 67108862"
    using q by (intro int_cast_small) simp_all
  ultimately show ?thesis
    using q by simp
qed

lemma ran2_steady_in_range:
  assumes inv: "state_in_range s" and pos: "0 \<le> idum s"
  shows "\<exists>v s'. ran2_steady s = Inr (v, s') \<and> 0 < v \<and> v < 1 \<and>
           state_in_range s' \<and> 0 \<le> idum s' \<and> 1 \<le> iy s'"
proof -
  define j where "j = iy s div 67108862"
  define x1 where "x1 = advance_idum (idum s)"
  define x2 where "x2 = advance_idum2 (idum2 s)"
  define y0 where "y0 = iv s ! nat j - x2"
  define y where "y = (if y0 < 1 then y0 + IMM1 else y0)"
  have len: "length (iv s) = 32"
    and tab: "list_all (\<lambda>x. 0 \<le> x \<and> x \<le> IMM1) (iv s)"
    and iy: "0 \<le> iy s" "iy s \<le> 2147483562"
    and i2: "0 \<le> idum2 s" "idum2 s \<le> 2147483647"
    and i1: "idum s \<le> 2147483647"
    using inv by (simp_all add: state_in_range_def IMM1_def IM1_def)
  have j: "int_cast (c_div (iy s) NDIV) = j" "0 \<le> j" "j \<le> 31"
    using table_index_range [OF iy] by (simp_all add: j_def)
  have x1: "0 \<le> x1" "x1 \<le> 2147483562"
    using advance_idum_range [OF pos i1] by (simp_all add: x1_def)
  have x2: "0 \<le> x2" "x2 \<le> 2147483398"
    using advance_idum2_range [OF i2] by (simp_all add: x2_def)
  have "nat j < length (iv s)"
    using j len by simp
  then have e: "0 \<le> iv s ! nat j" "iv s ! nat j \<le> 2147483562"
    using tab by (simp_all add: list_all_length IMM1_def IM1_def)
  have y: "1 \<le> y" "y \<le> 2147483562"
    using e x2 by (simp_all add: y_def y0_def IMM1_def IM1_def)
  have tab': "list_all (\<lambda>x. 0 \<le> x \<and> x \<le> IMM1) ((iv s)[nat j := x1])"
    unfolding list_all_iff
  proof
    fix x assume "x \<in> set ((iv s)[nat j := x1])"
    then have "x = x1 \<or> x \<in> set (iv s)"
      using set_update_subset_insert [of "iv s" "nat j" x1] by auto
    then show "0 \<le> x \<and> x \<le> IMM1"
      using x1 tab by (auto simp add: list_all_iff IMM1_def IM1_def)
  qed
  have "ran2_steady s =
      Inr (ran2_return y, \<lparr>idum = x1, idum2 = x2, iy = y, iv = (iv s)[nat j := x1]\<rparr>)"
    using j by (simp add: ran2_steady_def Let_def NTAB_def x1_def x2_def y_def y0_def)
  moreover have "state_in_range \<lparr>idum = x1, idum2 = x2, iy = y, iv = (iv s)[nat j := x1]\<rparr>"
    using x1 x2 y tab' len by (simp add: state_in_range_def IMM1_def IM1_def)
  ultimately show ?thesis
    using ran2_return_range [OF y] x1 y by simp
qed

lemma ran2_in_range:
  assumes "state_in_range s"
  shows "\<exists>v s'. ran2 s = Inr (v, s') \<and> 0 < v \<and> v < 1 \<and>
           state_in_range s' \<and> 0 \<le> idum s' \<and> 1 \<le> iy s'"
proof (cases "idum s \<le> 0")
  case True
  have "length (iv s) = 32" "- 2147483647 \<le> idum s"
    using assms by (simp_all add: state_in_range_def)
  then have "state_in_range (ran2_initialize s) \<and> 0 \<le> idum (ran2_initialize s)"
    using True by (intro ran2_initialize_in_range)
  then show ?thesis
    using True ran2_steady_in_range [of "ran2_initialize s"] by (simp add: ran2_def)
next
  case False
  then show ?thesis
    using assms ran2_steady_in_range [of s] by (simp add: ran2_def)
qed

lemma ran2_calls_in_range:
  assumes "state_in_range s"
  shows "\<exists>vs s'. ran2_calls n s = Inr (vs, s') \<and> length vs = n \<and>
           list_all (\<lambda>v. 0 < v \<and> v < 1) vs \<and> state_in_range s'"
  using assms
proof (induction n arbitrary: s)
  case 0
  then show ?case by simp
next
  case (Suc n)
  from ran2_in_range [OF Suc.prems] obtain v s1
    where 1: "ran2 s = Inr (v, s1)" "0 < v" "v < 1" "state_in_range s1"
    by blast
  from Suc.IH [OF 1(4)] obtain vs s2
    where 2: "ran2_calls n s1 = Inr (vs, s2)" "length vs = n"
      "list_all (\<lambda>v. 0 < v \<and> v < 1) vs" "state_in_range s2"
    by blast
  show ?case
    using 1 2 by simp
qed

lemma fresh_in_range:
  assumes "- 2147483647 \<le> seed" and "seed \<le> 2147483647"
  shows "state_in_range (fresh seed)"
  using assms by (simp add: state_in_range_def fresh_def IMM1_def IM1_def list_all_iff)

lemma ran2_value:
  assumes "ran2 s = Inr (v, s')"
  shows "v = ran2_return (iy s')"
  using assms by (auto simp add: ran2_def ran2_steady_def Let_def split: if_splits)

section \<open>States that never reach zero\<close>

lemma residue_nonzero:
  fixes a u c m x :: int
  assumes inv: "u * a = 1 + c * m" and x: "1 \<le> x" "x < m"
  shows "(a * x) mod m \<noteq> 0"
proof
  assume "(a * x) mod m = 0"
  then have "m dvd a * x"
    by (simp add: dvd_eq_mod_eq_0)
  then have "m dvd u * (a * x)"
    by (rule dvd_mult)
  moreover have "u * (a * x) = x + m * (c * x)"
  proof -
    have "u * (a * x) = (u * a) * x"
      by simp
    also have "\<dots> = (1 + c * m) * x"
      by (simp only: inv)
    also have "\<dots> = x + m * (c * x)"
      by (simp add: algebra_simps)
    finally show ?thesis .
  qed
  ultimately have "m dvd x + m * (c * x)"
    by simp
  then have "m dvd x"
    by (simp add: dvd_add_left_iff)
  then have "m \<le> x"
    using x(1) by (intro zdvd_imp_le) simp_all
  then show False
    using x(2) by simp
qed

lemma advance_idum_positive:
  assumes "1 \<le> x" and "x \<le> 2147483562"
  shows "1 \<le> advance_idum x \<and> advance_idum x \<le> 2147483562"
proof -
  define r where "r = (40014 * x) mod 2147483563"
  have "x < 2147483563"
    using assms(2) by simp
  with assms(1) have "r \<noteq> 0"
    unfolding r_def by (rule residue_nonzero [of 2082061899 40014 38795, rotated]) simp
  moreover have "0 \<le> r" "r < 2147483563"
    by (simp_all add: r_def)
  moreover have "advance_idum x = r"
    unfolding r_def using assms by (intro advance_idum_mod) simp_all
  ultimately show ?thesis
    by simp
qed

lemma advance_idum2_positive:
  assumes "1 \<le> x" and "x \<le> 2147483398"
  shows "1 \<le> advance_idum2 x \<and> advance_idum2 x \<le> 2147483398"
proof -
  define r where "r = (40692 * x) mod 2147483399"
  have "x < 2147483399"
    using assms(2) by simp
  with assms(1) have "r \<noteq> 0"
    unfolding r_def by (rule residue_nonzero [of 1481316021 40692 28069, rotated]) simp
  moreover have "0 \<le> r" "r < 2147483399"
    by (simp_all add: r_def)
  moreover have "advance_idum2 x = r"
    unfolding r_def using assms by (intro advance_idum2_mod) simp_all
  ultimately show ?thesis
    by simp
qed

lemma funpow_advance_idum_positive:
  assumes "1 \<le> x" and "x \<le> 2147483562"
  shows "1 \<le> (advance_idum ^^ k) x \<and> (advance_idum ^^ k) x \<le> 2147483562"
proof (induction k)
  case 0
  then show ?case
    using assms by simp
next
  case (Suc k)
  then have "1 \<le> (advance_idum ^^ k) x" "(advance_idum ^^ k) x \<le> 2147483562"
    by simp_all
  then have "1 \<le> advance_idum ((advance_idum ^^ k) x) \<and>
             advance_idum ((advance_idum ^^ k) x) \<le> 2147483562"
    by (rule advance_idum_positive)
  then show ?case
    by simp
qed

lemma ran2_initialize_strictly_in_range:
  assumes len: "length (iv s) = 32" and lo: "- 2147483398 \<le> idum s" and hi: "idum s \<le> 0"
  shows "state_strictly_in_range (ran2_initialize s)"
proof -
  define m where "m = (if - idum s < 1 then 1 else - idum s)"
  have m: "1 \<le> m" "m \<le> 2147483398"
    using lo hi by (simp_all add: m_def)
  then have m': "m \<le> 2147483562"
    by simp
  have pw: "1 \<le> (advance_idum ^^ k) m \<and> (advance_idum ^^ k) m \<le> 2147483562" for k
    using m(1) m' by (rule funpow_advance_idum_positive)
  have tab: "list_all (\<lambda>x. 1 \<le> x \<and> x \<le> 2147483562)
      (map (\<lambda>j. (advance_idum ^^ (40 - j)) m) [0..<32])"
    unfolding list_all_iff using pw by auto
  have e: "ran2_initialize s =
      \<lparr>idum = (advance_idum ^^ 40) m, idum2 = m, iy = (advance_idum ^^ 40) m,
       iv = map (\<lambda>j. (advance_idum ^^ (40 - j)) m) [0..<32]\<rparr>"
    using ran2_initialize_eq [OF len] by (simp add: m_def Let_def)
  show ?thesis
    unfolding e using tab pw [of 40] m
    by (simp add: state_strictly_in_range_def IMM1_def IM1_def IM2_def)
qed

lemma ran2_steady_strictly_in_range:
  assumes inv: "state_strictly_in_range s"
  shows "\<exists>v s'. ran2_steady s = Inr (v, s') \<and> 0 < v \<and> v < 1 \<and>
           state_strictly_in_range s' \<and>
           int_cast (c_div (iy s) NDIV) = iy s div 67108862 \<and>
           0 \<le> iy s div 67108862 \<and> iy s div 67108862 \<le> 31"
proof -
  define j where "j = iy s div 67108862"
  define x1 where "x1 = advance_idum (idum s)"
  define x2 where "x2 = advance_idum2 (idum2 s)"
  define y0 where "y0 = iv s ! nat j - x2"
  define y where "y = (if y0 < 1 then y0 + IMM1 else y0)"
  have len: "length (iv s) = 32"
    and tab: "list_all (\<lambda>x. 1 \<le> x \<and> x \<le> IMM1) (iv s)"
    and iy: "1 \<le> iy s" "iy s \<le> 2147483562"
    and i2: "1 \<le> idum2 s" "idum2 s \<le> 2147483398"
    and i1: "1 \<le> idum s" "idum s \<le> 2147483562"
    using inv by (simp_all add: state_strictly_in_range_def IMM1_def IM1_def IM2_def)
  have "0 \<le> iy s"
    using iy(1) by simp
  from table_index_range [OF this iy(2)]
  have j: "int_cast (c_div (iy s) NDIV) = j" "0 \<le> j" "j \<le> 31"
    by (simp_all add: j_def)
  have x1: "1 \<le> x1" "x1 \<le> 2147483562"
    using advance_idum_positive [OF i1] by (simp_all add: x1_def)
  have x2: "1 \<le> x2" "x2 \<le> 2147483398"
    using advance_idum2_positive [OF i2] by (simp_all add: x2_def)
  have "nat j < length (iv s)"
    using j len by simp
  then have e: "1 \<le> iv s ! nat j" "iv s ! nat j \<le> 2147483562"
    using tab by (simp_all add: list_all_length IMM1_def IM1_def)
  have y: "1 \<le> y" "y \<le> 2147483562"
    using e x2 by (simp_all add: y_def y0_def IMM1_def IM1_def)
  have tab': "list_all (\<lambda>x. 1 \<le> x \<and> x \<le> IMM1) ((iv s)[nat j := x1])"
    unfolding list_all_iff
  proof
    fix x assume "x \<in> set ((iv s)[nat j := x1])"
    then have "x = x1 \<or> x \<in> set (iv s)"
      using set_update_subset_insert [of "iv s" "nat j" x1] by auto
    then show "1 \<le> x \<and> x \<le> IMM1"
      using x1 tab by (auto simp add: list_all_iff IMM1_def IM1_def)
  qed
  have "ran2_steady s =
      Inr (ran2_return y, \<lparr>idum = x1, idum2 = x2, iy = y, iv = (iv s)[nat j := x1]\<rparr>)"
    using j by (simp add: ran2_steady_def Let_def NTAB_def x1_def x2_def y_def y0_def)
  moreover have "state_strictly_in_range
      \<lparr>idum = x1, idum2 = x2, iy = y, iv = (iv s)[nat j := x1]\<rparr>"
    using x1 x2 y tab' len by (simp add: state_strictly_in_range_def IMM1_def IM1_def IM2_def)
  ultimately show ?thesis
    using ran2_return_range [OF y] j by (simp add: j_def)
qed

lemma ran2_calls_strictly_in_range:
  assumes "state_strictly_in_range s"
  shows "\<exists>vs s'. ran2_calls n s = Inr (vs, s') \<and> length vs = n \<and> state_strictly_in_range s'"
  using assms
proof (induction n arbitrary: s)
  case 0
  then show ?case by simp
next
  case (Suc n)
  have "\<not> idum s \<le> 0"
    using Suc.prems by (simp add: state_strictly_in_range_def)
  then have "ran2 s = ran2_steady s"
    by (simp add: ran2_def)
  with ran2_steady_strictly_in_range [OF Suc.prems] obtain v s1
    where 1: "ran2 s = Inr (v, s1)" "state_strictly_in_range s1"
    by auto
  from Suc.IH [OF 1(2)] obtain vs s2
    where 2: "ran2_calls n s1 = Inr (vs, s2)" "length vs = n" "state_strictly_in_range s2"
    by blast
  show ?case
    using 1 2 by simp
qed

lemma seeds_below_both_moduli:
  assumes "- 2147483398 \<le> seed" and "seed \<le> 0" and "length (iv s) = 32" and "idum s = seed"
  shows "\<exists>vs s'. ran2_calls (Suc n) s = Inr (vs, s') \<and> length vs = Suc n \<and>
           state_strictly_in_range s'"
proof -
  have "state_strictly_in_range (ran2_initialize s)"
    using assms by (intro ran2_initialize_strictly_in_range) simp_all
  from ran2_steady_strictly_in_range [OF this] obtain v s1
    where "ran2_steady (ran2_initialize s) = Inr (v, s1)" "state_strictly_in_range s1"
    by blast
  then have 1: "ran2 s = Inr (v, s1)" "state_strictly_in_range s1"
    using assms by (simp_all add: ran2_def)
  from ran2_calls_strictly_in_range [OF 1(2), of n] obtain vs s2
    where 2: "ran2_calls n s1 = Inr (vs, s2)" "length vs = n" "state_strictly_in_range s2"
    by blast
  show ?thesis
    using 1 2 by simp
qed

lemma ran2_steady_components:
  assumes "ran2_steady s = Inr (v, s')"
  shows "idum s' = advance_idum (idum s) \<and> idum2 s' = advance_idum2 (idum2 s)"
  using assms by (auto simp add: ran2_steady_def Let_def split: if_splits)

lemma advance_idum2_zero: "advance_idum2 0 = 0"
  by (simp add: advance_idum2_def c_div_def)

lemma secondary_zero_kept:
  assumes "state_in_range s" and "1 \<le> idum s" and "idum s \<le> 2147483562" and "idum2 s = 0"
  shows "\<exists>vs s'. ran2_calls n s = Inr (vs, s') \<and> state_in_range s' \<and>
           1 \<le> idum s' \<and> idum s' \<le> 2147483562 \<and> idum2 s' = 0"
  using assms
proof (induction n arbitrary: s)
  case 0
  then show ?case by simp
next
  case (Suc n)
  have st: "ran2 s = ran2_steady s"
    using Suc.prems(2) by (simp add: ran2_def)
  from ran2_in_range [OF Suc.prems(1)] obtain v s1
    where 1: "ran2 s = Inr (v, s1)" "state_in_range s1"
    by blast
  from 1(1) st have "ran2_steady s = Inr (v, s1)"
    by simp
  from ran2_steady_components [OF this]
  have c: "idum s1 = advance_idum (idum s)" "idum2 s1 = 0"
    using Suc.prems(4) by (simp_all add: advance_idum2_zero)
  have p: "1 \<le> idum s1" "idum s1 \<le> 2147483562"
    using advance_idum_positive [OF Suc.prems(2,3)] c(1) by simp_all
  from Suc.IH [OF 1(2) p c(2)] obtain vs s2
    where 2: "ran2_calls n s1 = Inr (vs, s2)" "state_in_range s2"
      "1 \<le> idum s2" "idum s2 \<le> 2147483562" "idum2 s2 = 0"
    by blast
  show ?case
    using 1 2 by simp
qed

section \<open>Seeds that fit 32 bits\<close>

text \<open>
  For every seed from \<open>-2147483647\<close> to \<open>2147483647\<close>, every call of a sequence of
  calls that starts on the static initial values returns a value strictly between 0 and 1.
\<close>

lemma ran2_unit_interval_on_32_bit_seeds:
  assumes "- 2147483647 \<le> seed" and "seed \<le> 2147483647"
  shows "\<exists>vs s'. ran2_calls n (fresh seed) = Inr (vs, s') \<and> length vs = n \<and>
           list_all (\<lambda>v. 0 < v \<and> v < 1) vs"
proof -
  have "state_in_range (fresh seed)"
    using assms by (rule fresh_in_range)
  from ran2_calls_in_range [OF this, of n] show ?thesis
    by blast
qed

lemma ran2_unit_interval_on_32_bit_seeds_instance:
  "\<exists>vs s'. ran2_calls 4 (fresh (- 2147483647)) = Inr (vs, s') \<and> length vs = 4 \<and>
      list_all (\<lambda>v. 0 < v \<and> v < 1) vs"
proof -
  have h: "- 2147483647 \<le> (- 2147483647 :: int)" "(- 2147483647 :: int) \<le> 2147483647"
    by simp_all
  from ran2_unit_interval_on_32_bit_seeds [OF h, of 4] show ?thesis .
qed

text \<open>
  For a negative seed, the values returned do not depend on what the static variables held
  before the first call; for a seed of \<open>-2147483647\<close> or above, each of the calls
  returns a value.
\<close>

lemma ran2_deterministic:
  assumes "seed < 0" and "idum s1 = seed" and "idum s2 = seed"
    and "length (iv s1) = 32" and "length (iv s2) = 32"
  shows "ran2_outputs n s1 = ran2_outputs n s2 \<and>
         (- 2147483647 \<le> seed \<longrightarrow>
            (\<exists>vs. ran2_outputs n s1 = Inr vs \<and> length vs = n))"
proof -
  have e: "ran2 s1 = ran2 s2" "ran2 s1 = ran2 (fresh seed)"
    using assms by (auto intro!: ran2_seed_only simp add: fresh_def)
  have "\<exists>vs. ran2_outputs n s1 = Inr vs \<and> length vs = n" if "- 2147483647 \<le> seed"
  proof -
    have "state_in_range (fresh seed)"
      using that assms(1) by (intro fresh_in_range) simp_all
    from ran2_calls_in_range [OF this, of n] obtain vs s'
      where "ran2_calls n (fresh seed) = Inr (vs, s')" "length vs = n"
      by blast
    then have "ran2_outputs n (fresh seed) = Inr vs \<and> length vs = n"
      by (simp add: ran2_outputs_def)
    then show ?thesis
      using ran2_outputs_cong [OF e(2), of n] by simp
  qed
  then show ?thesis
    using ran2_outputs_cong [OF e(1), of n] by simp
qed

lemma ran2_deterministic_instance:
  "ran2_outputs 10000 (fresh (- 7)) =
   ran2_outputs 10000 \<lparr>idum = - 7, idum2 = 42, iy = 17, iv = replicate 32 5\<rparr> \<and>
   (\<exists>vs. ran2_outputs 10000 (fresh (- 7)) = Inr vs \<and> length vs = 10000)"
proof -
  have h: "(- 7 :: int) < 0" "idum (fresh (- 7)) = - 7"
    "idum \<lparr>idum = - 7, idum2 = 42, iy = 17, iv = replicate 32 5\<rparr> = - 7"
    "length (iv (fresh (- 7))) = 32"
    "length (iv \<lparr>idum = - 7, idum2 = 42, iy = 17, iv = replicate 32 5\<rparr>) = 32"
    by (simp_all add: fresh_def)
  have "- 2147483647 \<le> (- 7 :: int)"
    by simp
  with ran2_deterministic [OF h, of 10000] show ?thesis
    by blast
qed



section \<open>The checks that precede the loops of \<open>problem\<close>\<close>

lemma problem_setup_grid:
  assumes "Nx2 h = 1"
  shows "problem_setup h = Inl HGB_only_works_on_a_2D_or_3D_grid"
  using assms by (simp add: problem_setup_def)

lemma FPwave_input_fatal:
  assumes "(Nx1 h = 160 \<and> files h ''Data-160-FPwave.dat'' = None) \<or>
           (Nx1 h = 40 \<and> files h ''Data-40-FPwave.dat'' = None) \<or>
           doubles h ''grid'' ''x1min'' \<noteq> Some (- 4.7965) \<or>
           doubles h ''grid'' ''x1max'' \<noteq> Some 4.7965"
  shows "\<exists>e. FPwave_input h = Inl e"
  using assms
  by (auto simp add: FPwave_input_def and_then_def read_FPwave_def par_getd_def
      split: option.splits sum.splits)

lemma and_then_Inl: "and_then (Inl e) f = Inl e"
  by (simp add: and_then_def)

lemma and_then_fatal:
  assumes "\<And>v. \<exists>e. f v = Inl e"
  shows "\<exists>e. and_then r f = Inl e"
  using assms by (cases r) (simp_all add: and_then_def)

lemma problem_setup_FPwave:
  assumes "par_geti_def h ''problem'' ''ipert'' 1 = 4" and "FPwave_input h = Inl e"
  shows "\<exists>e. problem_setup h = Inl e"
proof (cases "Nx2 h = 1")
  case True
  then show ?thesis
    by (simp add: problem_setup_def)
next
  case False
  then show ?thesis
    unfolding problem_setup_def using assms
    by (simp add: and_then_Inl and_then_fatal)
qed

section \<open>The claims\<close>

text \<open>
  C1. In the steady-state step, for every primary state \<open>idum\<close> with
  \<open>1 \<le> idum \<le> 2147483562\<close> the three statements of the primary update leave
  \<open>(40014 * idum) mod 2147483563\<close>, for every secondary state \<open>idum2\<close> with
  \<open>1 \<le> idum2 \<le> 2147483398\<close> the secondary update leaves
  \<open>(40692 * idum2) mod 2147483399\<close>, and every value computed on the way, the results
  included, lies in the range that every \<open>long int\<close> has.
\<close>

theorem schrage_updates_exact:
  assumes "1 \<le> idum_old \<and> idum_old \<le> 2147483562"
    and "1 \<le> idum2_old \<and> idum2_old \<le> 2147483398"
  shows "advance_idum idum_old = (40014 * idum_old) mod 2147483563 \<and>
         advance_idum2 idum2_old = (40692 * idum2_old) mod 2147483399 \<and>
         (\<forall>v \<in> set (advance_idum_values idum_old). fits_long v) \<and>
         (\<forall>v \<in> set (advance_idum2_values idum2_old). fits_long v) \<and>
         last (advance_idum_values idum_old) = advance_idum idum_old \<and>
         last (advance_idum2_values idum2_old) = advance_idum2 idum2_old"
proof -
  have 1: "0 \<le> idum_old" "idum_old \<le> 2147483647"
    using assms(1) by simp_all
  have 2: "0 \<le> idum2_old" "idum2_old \<le> 2147483647"
    using assms(2) by simp_all
  show ?thesis
    using advance_idum_mod [OF 1] advance_idum2_mod [OF 2]
      advance_idum_values_fit [OF 1] advance_idum2_values_fit [OF 2]
      last_advance_idum_values [of idum_old] last_advance_idum2_values [of idum2_old]
    by blast
qed

theorem schrage_updates_exact_witness:
  "advance_idum 2147483562 = 2147443549 \<and> advance_idum2 2147483398 = 2147442707 \<and>
   list_all fits_long (advance_idum_values 2147483562) \<and>
   list_all fits_long (advance_idum2_values 2147483398)"
proof -
  have h1: "(1::int) \<le> 2147483562 \<and> (2147483562::int) \<le> 2147483562"
    by simp
  have h2: "(1::int) \<le> 2147483398 \<and> (2147483398::int) \<le> 2147483398"
    by simp
  show ?thesis
    using schrage_updates_exact [OF h1 h2] by (simp add: list_all_iff)
qed

text \<open>
  C2. A call with \<open>*idum <= 0\<close> first replaces the seed by its magnitude, by 1 when the
  magnitude is 0, and copies it into \<open>idum2\<close>; it then runs the primary recurrence 40
  times, the results of the first 8 runs being stored nowhere and those of the other 32
  going into \<open>iv[31]\<close> down to \<open>iv[0]\<close>, so that \<open>iv[j]\<close> holds the iterate number
  \<open>40 - j\<close>; \<open>iy\<close> is set from \<open>iv[0]\<close>. The steady-state part runs on the state
  so prepared. A call with a positive \<open>*idum\<close> runs the steady-state part on the state as
  it stands: the initialization is not executed.
\<close>

theorem ran2_initialization:
  assumes "length (iv s) = 32"
  shows "ran2 s = ran2_steady
           (if idum s \<le> 0 then
              (let m = (if \<bar>idum s\<bar> = 0 then 1 else \<bar>idum s\<bar>)
               in \<lparr>idum = (advance_idum ^^ 40) m, idum2 = m, iy = (advance_idum ^^ 40) m,
                   iv = map (\<lambda>j. (advance_idum ^^ (40 - j)) m) [0..<32]\<rparr>)
            else s)"
proof (cases "idum s \<le> 0")
  case True
  then have "(if - idum s < 1 then 1 else - idum s) = (if \<bar>idum s\<bar> = 0 then 1 else \<bar>idum s\<bar>)"
    by simp
  then show ?thesis
    using True ran2_initialize_eq [OF assms] by (simp add: ran2_def)
next
  case False
  then show ?thesis
    by (simp add: ran2_def)
qed

theorem ran2_initialization_witness:
  "ran2 (fresh (- 5)) = ran2_steady
     \<lparr>idum = (advance_idum ^^ 40) 5, idum2 = 5, iy = (advance_idum ^^ 40) 5,
      iv = map (\<lambda>j. (advance_idum ^^ (40 - j)) 5) [0..<32]\<rparr>"
proof -
  have "length (iv (fresh (- 5))) = 32"
    by (simp add: fresh_def)
  from ran2_initialization [OF this] show ?thesis
    by (simp add: fresh_def)
qed

text \<open>
  C4. The value returned is \<open>AM * iy\<close>, that is \<open>iy / 2147483563\<close>, for the new
  \<open>iy\<close>, unless that is \<open>RNMX = 1 - DBL_EPSILON\<close> or more: then \<open>RNMX\<close> itself
  is returned. No value above \<open>RNMX\<close> is ever returned. The instance that follows is a
  state made up with a table entry large enough for the bound to apply.
\<close>

theorem ran2_clamp:
  assumes "ran2 s = Inr (v, s')"
  shows "(RNMX \<le> AM * real_of_int (iy s') \<longrightarrow> v = RNMX) \<and>
         (AM * real_of_int (iy s') < RNMX \<longrightarrow> v = AM * real_of_int (iy s')) \<and>
         v \<le> RNMX \<and>
         AM * real_of_int (iy s') = real_of_int (iy s') / 2147483563 \<and>
         RNMX = 1 - 1 / 2 ^ 52"
  using ran2_value [OF assms]
  by (simp add: ran2_return_def Let_def AM_def IM1_def RNMX_def DBL_EPSILON_def)

theorem ran2_clamp_witness:
  "ran2 \<lparr>idum = 1, idum2 = 1, iy = 0, iv = replicate 32 4294967296\<rparr> =
     Inr (RNMX, \<lparr>idum = 40014, idum2 = 40692, iy = 4294926604,
                 iv = 40014 # replicate 31 4294967296\<rparr>) \<and>
   RNMX \<le> AM * real_of_int 4294926604"
proof -
  define s' where
    "s' = \<lparr>idum = 40014, idum2 = 40692, iy = 4294926604, iv = 40014 # replicate 31 4294967296\<rparr>"
  have r: "ran2 \<lparr>idum = 1, idum2 = 1, iy = 0, iv = replicate 32 4294967296\<rparr> =
      Inr (ran2_return 4294926604, s')"
    unfolding s'_def by code_simp
  have b: "RNMX \<le> AM * real_of_int 4294926604"
    by (simp add: RNMX_def DBL_EPSILON_def AM_def IM1_def)
  from ran2_clamp [OF r] b have "ran2_return 4294926604 = RNMX"
    by (simp add: s'_def)
  with r b show ?thesis
    by (simp add: s'_def)
qed


text \<open>
  C6. A generator first called with seed 0 and one first called with seed \<open>-1\<close> return the
  same values call for call: the initialization leaves the same state in both, with the
  magnitude 1 in \<open>idum2\<close>.
\<close>

theorem seed_zero_as_minus_one:
  assumes "idum s1 = 0" and "idum s2 = - 1"
    and "length (iv s1) = 32" and "length (iv s2) = 32"
  shows "ran2_outputs n s1 = ran2_outputs n s2 \<and>
         ran2_initialize s1 = ran2_initialize s2 \<and>
         idum2 (ran2_initialize s1) = 1 \<and> idum2 (ran2_initialize s2) = 1"
proof -
  have i: "ran2_initialize s1 = ran2_initialize s2"
    "idum2 (ran2_initialize s1) = 1" "idum2 (ran2_initialize s2) = 1"
    using assms by (simp_all add: ran2_initialize_eq)
  then have "ran2 s1 = ran2 s2"
    using assms by (simp add: ran2_def)
  then show ?thesis
    using i ran2_outputs_cong [of s1 s2 n] by simp
qed

theorem seed_zero_as_minus_one_witness:
  "ran2_outputs 5 (fresh 0) = ran2_outputs 5 (fresh (- 1)) \<and>
   idum2 (ran2_initialize (fresh 0)) = 1 \<and> idum2 (ran2_initialize (fresh (- 1))) = 1"
proof -
  have h: "idum (fresh 0) = 0" "idum (fresh (- 1)) = - 1"
    "length (iv (fresh 0)) = 32" "length (iv (fresh (- 1))) = 32"
    by (simp_all add: fresh_def)
  from seed_zero_as_minus_one [OF h, of 5] show ?thesis
    by blast
qed

text \<open>
  C7. The first value returned after seed \<open>-1\<close> and the first value returned after seed
  \<open>-2\<close> differ.
\<close>

theorem first_outputs_differ:
  "ran2_outputs 1 (fresh (- 1)) = Inr [612850790 / 2147483563] \<and>
   ran2_outputs 1 (fresh (- 2)) = Inr [890935924 / 2147483563] \<and>
   ran2_outputs 1 (fresh (- 1)) \<noteq> ran2_outputs 1 (fresh (- 2))"
  by code_simp





text \<open>
  C9. \<open>problem\<close> ends in a fatal error, with the field arrays as they were on entry, when
  \<open>Nx2 == 1\<close>; when \<open>ipert == 4\<close> and the data file that the grid size asks for
  (\<open>Nx1 == 160\<close> or \<open>Nx1 == 40\<close>) cannot be opened; and when \<open>ipert == 4\<close> and
  \<open>x1min\<close> is not \<open>-4.7965\<close> or \<open>x1max\<close> is not \<open>4.7965\<close>. The instances
  that follow give the diagnostic of each case, and a run that passes every check and assigns
  the fields.
\<close>

theorem problem_fails_fatally:
  assumes "Nx2 h = 1 \<or>
           (par_geti_def h ''problem'' ''ipert'' 1 = 4 \<and> Nx1 h = 160 \<and>
              files h ''Data-160-FPwave.dat'' = None) \<or>
           (par_geti_def h ''problem'' ''ipert'' 1 = 4 \<and> Nx1 h = 40 \<and>
              files h ''Data-40-FPwave.dat'' = None) \<or>
           (par_geti_def h ''problem'' ''ipert'' 1 = 4 \<and>
              (doubles h ''grid'' ''x1min'' \<noteq> Some (- 4.7965) \<or>
               doubles h ''grid'' ''x1max'' \<noteq> Some 4.7965))"
  shows "\<exists>e. problem h init_fields U = Terminated e U"
proof -
  have "\<exists>e. problem_setup h = Inl e"
  proof (cases "Nx2 h = 1")
    case True
    then show ?thesis
      by (simp add: problem_setup_grid)
  next
    case False
    with assms have 4: "par_geti_def h ''problem'' ''ipert'' 1 = 4"
      and "(Nx1 h = 160 \<and> files h ''Data-160-FPwave.dat'' = None) \<or>
           (Nx1 h = 40 \<and> files h ''Data-40-FPwave.dat'' = None) \<or>
           doubles h ''grid'' ''x1min'' \<noteq> Some (- 4.7965) \<or>
           doubles h ''grid'' ''x1max'' \<noteq> Some 4.7965"
      by blast+
    then obtain e where "FPwave_input h = Inl e"
      using FPwave_input_fatal by blast
    with 4 show ?thesis
      by (rule problem_setup_FPwave)
  qed
  then show ?thesis
    by (auto simp add: problem_def)
qed

theorem problem_fails_fatally_witness:
  "problem \<lparr>Nx1 = 64, Nx2 = 1, doubles = (\<lambda>b n. Some 1), ints = (\<lambda>b n. None),
            files = (\<lambda>n. Some [])\<rparr> (\<lambda>st U. Suc U) 0 =
     Terminated HGB_only_works_on_a_2D_or_3D_grid 0 \<and>
   problem \<lparr>Nx1 = 160, Nx2 = 64, doubles = (\<lambda>b n. Some 1), ints = (\<lambda>b n. Some 4),
            files = (\<lambda>n. None)\<rparr> (\<lambda>st U. Suc U) 0 =
     Terminated (Error_opening ''Data-160-FPwave.dat'') 0 \<and>
   problem \<lparr>Nx1 = 40, Nx2 = 64, doubles = (\<lambda>b n. Some 1), ints = (\<lambda>b n. Some 4),
            files = (\<lambda>n. None)\<rparr> (\<lambda>st U. Suc U) 0 =
     Terminated (Error_opening ''Data-40-FPwave.dat'') 0 \<and>
   problem \<lparr>Nx1 = 160, Nx2 = 64, doubles = (\<lambda>b n. Some 1), ints = (\<lambda>b n. Some 4),
            files = (\<lambda>n. Some [])\<rparr> (\<lambda>st U. Suc U) 0 =
     Terminated Requires_xmin 0 \<and>
   problem \<lparr>Nx1 = 160, Nx2 = 64,
            doubles = (\<lambda>b n. if n = ''x1min'' then Some (- 4.7965) else Some 1),
            ints = (\<lambda>b n. Some 4), files = (\<lambda>n. Some [])\<rparr> (\<lambda>st U. Suc U) 0 =
     Terminated Requires_xmax 0 \<and>
   problem \<lparr>Nx1 = 64, Nx2 = 64, doubles = (\<lambda>b n. Some 1), ints = (\<lambda>b n. None),
            files = (\<lambda>n. None)\<rparr> (\<lambda>st U. Suc U) 0 =
     Returned 1"
proof -
  define h0 where
    "h0 = \<lparr>Nx1 = 64, Nx2 = 1, doubles = (\<lambda>b n. Some (1::real)),
           ints = (\<lambda>b n. None :: int option),
           files = (\<lambda>n. Some ([] :: (real \<times> real \<times> real \<times> real) list))\<rparr>"
  define h1 where
    "h1 = \<lparr>Nx1 = 160, Nx2 = 64, doubles = (\<lambda>b n. Some (1::real)),
           ints = (\<lambda>b n. Some (4::int)),
           files = (\<lambda>n. None :: (real \<times> real \<times> real \<times> real) list option)\<rparr>"
  have "\<exists>e. problem h0 (\<lambda>st U. Suc U) 0 = Terminated e 0"
    by (rule problem_fails_fatally) (simp add: h0_def)
  moreover have "\<exists>e. problem h1 (\<lambda>st U. Suc U) 0 = Terminated e 0"
    by (rule problem_fails_fatally) (simp add: h1_def par_geti_def_def)
  moreover have "problem h0 (\<lambda>st U. Suc U) 0 = Terminated HGB_only_works_on_a_2D_or_3D_grid 0"
    by (simp add: h0_def problem_def problem_setup_def)
  moreover have "problem h1 (\<lambda>st U. Suc U) 0 =
      Terminated (Error_opening ''Data-160-FPwave.dat'') 0"
    by (simp add: h1_def problem_def problem_setup_def and_then_def par_getd_def
        par_geti_def_def FPwave_input_def read_FPwave_def)
  ultimately show ?thesis
    unfolding h0_def h1_def
    by (simp add: problem_def problem_setup_def and_then_def par_getd_def
        par_geti_def_def par_getd_def_def FPwave_input_def read_FPwave_def)
qed

text \<open>
  C10, at inputs where the code leaves it. With the seed \<open>-2147483399\<close>, the negative of
  the second modulus, the secondary state is 0 after the first call and after every later
  call, outside the range from 1 to 2147483398. With the seed \<open>-2147483563\<close>, the
  negative of the first modulus, the first call leaves the primary state 0 and a table of
  zeros. Both seeds fit a \<open>long int\<close> of 32 bits. For the seeds from \<open>-2147483398\<close>
  to 0 the ranges of the claim hold after every call (\<open>seeds_below_both_moduli\<close>).
\<close>

theorem moduli_as_seeds:
  "(\<forall>n. \<exists>vs s. ran2_calls (Suc n) (fresh (- 2147483399)) = Inr (vs, s) \<and> idum2 s = 0) \<and>
   ran2 (fresh (- 2147483563)) =
     Inr (2140810074 / 2147483563,
          \<lparr>idum = 0, idum2 = 6673488, iy = 2140810074, iv = replicate 32 0\<rparr>)"
proof -
  define s1 where
    "s1 = \<lparr>idum = 1973783392, idum2 = 0, iy = 1705362841,
           iv = [1352919964, 1354514497, 513907873, 262719197, 1545385413,
                 512839277, 411273039, 735963747, 79393816, 2137610579,
                 1968231177, 389842089, 77453107, 879035106, 1873475165,
                 664728780, 240879966, 908717763, 842239423, 2098505449,
                 1973783392, 1895660826, 1815860812, 865715143, 1547225205,
                 417524413, 806269383, 891182357, 1972386155, 1137119674,
                 1060836138, 1887648141]\<rparr>"
  have r: "ran2 (fresh (- 2147483399)) = Inr (1705362841 / 2147483563, s1)"
    unfolding s1_def by code_simp
  have s1: "state_in_range s1" "1 \<le> idum s1" "idum s1 \<le> 2147483562" "idum2 s1 = 0"
    by (simp_all add: s1_def state_in_range_def IMM1_def IM1_def)
  have "\<exists>vs s. ran2_calls (Suc n) (fresh (- 2147483399)) = Inr (vs, s) \<and> idum2 s = 0" for n
  proof -
    from secondary_zero_kept [OF s1, of n] obtain vs s2
      where "ran2_calls n s1 = Inr (vs, s2)" "idum2 s2 = 0"
      by blast
    then show ?thesis
      using r by simp
  qed
  moreover have "ran2 (fresh (- 2147483563)) =
      Inr (2140810074 / 2147483563,
           \<lparr>idum = 0, idum2 = 6673488, iy = 2140810074, iv = replicate 32 0\<rparr>)"
    by code_simp
  ultimately show ?thesis
    by blast
qed

end
